theory Spec2Isabelle
  imports Main "HOL-Library.AList"
begin

section \<open>The WebSocket gateway of server/index.js\<close>

text \<open>
  The gateway accepts WebSocket connections, forwards every \<open>frame\<close> message to the
  recognition service and every \<open>chat\<close> message to the RAG service through axios, and
  writes the outcome of each call back on the socket the message came from, provided
  that socket is still open. The model below follows the file handler by handler.
  Calls to \<open>console.log\<close> and \<open>console.error\<close> write to the process log only; what
  is kept of them is the evaluation of their arguments, which can throw.
\<close>

subsection \<open>JSON values, property reads and string conversion\<close>

text \<open>
  What \<open>JSON.parse\<close> returns and what \<open>JSON.stringify\<close> receives. Numbers are carried
  opaquely (the gateway never computes with them). The field list of an object is in
  insertion order with distinct keys, as \<open>JSON.parse\<close> builds it.
\<close>

datatype json =
    JNull
  | JBool bool
  | JNumber int
  | JString string
  | JArray "json list"
  | JObject "(string \<times> json) list"

datatype js_error = SyntaxError | TypeError

text \<open>
  The property read \<open>data.k\<close> for the keys the handler reads (\<open>type\<close>, \<open>image\<close>,
  \<open>query\<close>): on \<open>null\<close> it throws a TypeError, on an object it gives the field or
  \<open>undefined\<close> (None), on every other value \<open>undefined\<close>, since no prototype defines
  these keys.
\<close>

fun get_prop :: "json \<Rightarrow> string \<Rightarrow> js_error + json option" where
  "get_prop JNull k = Inl TypeError"
| "get_prop (JObject fs) k = Inr (map_of fs k)"
| "get_prop (JBool b) k = Inr None"
| "get_prop (JNumber n) k = Inr None"
| "get_prop (JString s) k = Inr None"
| "get_prop (JArray xs) k = Inr None"

text \<open>
  Whether converting a parsed value to a string throws, as the template literal of
  line 45 does with \<open>data.query\<close>. Primitives convert. An object converts through its
  \<open>toString\<close>: the inherited one gives \<open>[object Object]\<close>, but an own field named
  \<open>toString\<close> hides it, and since no parsed value is callable the conversion then
  ends in a TypeError. An array joins the conversions of its elements. Limits of the
  engine (the stack depth, on arrays nested thousands deep) are outside the model.
\<close>

fun to_string_throws :: "json \<Rightarrow> bool" where
  "to_string_throws JNull = False"
| "to_string_throws (JBool b) = False"
| "to_string_throws (JNumber n) = False"
| "to_string_throws (JString s) = False"
| "to_string_throws (JArray xs) = list_ex to_string_throws xs"
| "to_string_throws (JObject fs) = (''toString'' \<in> set (map fst fs))"

text \<open>The same for a property that may be \<open>undefined\<close>, which converts to \<open>undefined\<close>.\<close>

definition printable :: "json option \<Rightarrow> bool" where
  "printable q = (case q of None \<Rightarrow> True | Some v \<Rightarrow> \<not> to_string_throws v)"

text \<open>The outcome of \<open>JSON.parse(msg)\<close> on the raw message: a SyntaxError or a value.\<close>

datatype parse_result = ParseThrows | Parsed json

subsection \<open>Sockets, calls in flight and the gateway state\<close>

text \<open>
  A \<open>ws\<close> object: its \<open>readyState\<close> (0 connecting, 1 open, 2 closing, 3 closed) and the
  messages written with \<open>ws.send\<close>, each recorded as the value handed to
  \<open>JSON.stringify\<close>.
\<close>

record socket =
  readyState :: nat
  sent :: "json list"

datatype kind = Frame | Chat

text \<open>
  An axios call in flight: the arguments of \<open>axios.post\<close> (url, the object literal sent
  as body, where a field holding \<open>undefined\<close> is None, and the \<open>timeout\<close> option in
  milliseconds), the reading of the timer clock when it was started, and what the
  attached \<open>.then\<close>/\<open>.catch\<close> closures hold: which of the two pairs they are, and the
  socket \<open>ws\<close> they captured.
\<close>

record call =
  url :: string
  body :: "(string \<times> json option) list"
  timeout :: nat
  started :: nat
  kind :: kind
  sock :: nat

text \<open>
  How a call settles: the promise resolves with \<open>resp.data\<close>, the response body as
  axios decoded it, or rejects with \<open>err.message\<close>.
\<close>

datatype outcome = Resolved json | Rejected string

text \<open>
  The state of the process: the \<open>clients\<close> Map (insertion ordered, from id to socket
  handle), every socket accepted so far (a handle is an index into this list), the
  \<open>id\<close> each connection closure holds, the calls in flight, the timer clock in
  milliseconds since the process started, and whether the process is still running.
\<close>

record gateway =
  clients :: "(string \<times> nat) list"
  sockets :: "socket list"
  ids :: "string list"
  calls :: "call list"
  clock :: nat
  alive :: bool

definition init :: gateway where
  "init = \<lparr>clients = [], sockets = [], ids = [], calls = [], clock = 0, alive = True\<rparr>"

subsection \<open>Connection ids (line 18)\<close>

definition digit_char :: "nat \<Rightarrow> char" where
  "digit_char d = ''0123456789'' ! d"

text \<open>The decimal rendering of \<open>Date.now()\<close> when it is concatenated to a string.\<close>

fun show_nat :: "nat \<Rightarrow> string" where
  "show_nat n = (if n < 10 then [digit_char n] else show_nat (n div 10) @ [digit_char (n mod 10)])"

declare show_nat.simps [simp del]

text \<open>
  \<open>Date.now() + Math.random().toString(36).slice(2)\<close>: \<open>now\<close> is the clock in
  milliseconds and \<open>rnd\<close> the string \<open>Math.random().toString(36)\<close>, whose first two
  characters \<open>slice(2)\<close> removes.
\<close>

definition connection_id :: "nat \<Rightarrow> string \<Rightarrow> string" where
  "connection_id now rnd = show_nat now @ drop 2 rnd"

subsection \<open>The handlers\<close>

definition ws_send :: "json \<Rightarrow> socket \<Rightarrow> socket" where
  "ws_send m w = w\<lparr>sent := sent w @ [m]\<rparr>"

text \<open>Lines 31 to 42: the closures attached to the recognition call.\<close>

definition recognition_then :: "json \<Rightarrow> socket \<Rightarrow> socket" where
  "recognition_then data w =
     (if readyState w = 1
      then ws_send (JObject [(''type'', JString ''recognition''), (''payload'', data)]) w
      else w)"

definition recognition_catch :: "string \<Rightarrow> socket \<Rightarrow> socket" where
  "recognition_catch message w =
     (if readyState w = 1
      then ws_send (JObject [(''type'', JString ''recognition''), (''error'', JString message)]) w
      else w)"

text \<open>Lines 47 to 57: the closures attached to the chat call.\<close>

definition chat_then :: "json \<Rightarrow> socket \<Rightarrow> socket" where
  "chat_then data w =
     (if readyState w = 1
      then ws_send (JObject [(''type'', JString ''chat_response''), (''payload'', data)]) w
      else w)"

definition chat_catch :: "string \<Rightarrow> socket \<Rightarrow> socket" where
  "chat_catch message w =
     (if readyState w = 1
      then ws_send (JObject [(''type'', JString ''chat_response''), (''error'', JString message)]) w
      else w)"

fun settle :: "kind \<Rightarrow> outcome \<Rightarrow> socket \<Rightarrow> socket" where
  "settle Frame (Resolved data) w = recognition_then data w"
| "settle Frame (Rejected message) w = recognition_catch message w"
| "settle Chat (Resolved data) w = chat_then data w"
| "settle Chat (Rejected message) w = chat_catch message w"

text \<open>
  Lines 25 to 58, the body of the \<open>try\<close> block of the message handler of socket \<open>w\<close>,
  run when the timer clock reads \<open>now\<close>: an exception (Inl), no call, or the call it
  starts. In the chat branch the log line of line 45 converts \<open>data.query\<close> to a
  string before \<open>axios.post\<close> is reached; the log line of the frame branch (line 29)
  prints the connection id only.
\<close>

definition try_body :: "nat \<Rightarrow> nat \<Rightarrow> parse_result \<Rightarrow> js_error + call option" where
  "try_body w now p =
     (case p of
        ParseThrows \<Rightarrow> Inl SyntaxError
      | Parsed data \<Rightarrow>
          (case get_prop data ''type'' of
             Inl e \<Rightarrow> Inl e
           | Inr t \<Rightarrow>
               if t = Some (JString ''frame'') then
                 (case get_prop data ''image'' of
                    Inl e \<Rightarrow> Inl e
                  | Inr img \<Rightarrow>
                      Inr (Some \<lparr>url = ''http://localhost:8001/recognize'',
                                 body = [(''image'', img)],
                                 timeout = 10000, started = now, kind = Frame, sock = w\<rparr>))
               else if t = Some (JString ''chat'') then
                 (case get_prop data ''query'' of
                    Inl e \<Rightarrow> Inl e
                  | Inr qry \<Rightarrow>
                      if printable qry then
                        Inr (Some \<lparr>url = ''http://localhost:8002/query'',
                                   body = [(''query'', qry)],
                                   timeout = 30000, started = now, kind = Chat, sock = w\<rparr>)
                      else Inl TypeError)
               else Inr None))"

text \<open>Lines 22 to 62: the \<open>catch\<close> block only logs, so an exception leaves the state as it is.\<close>

definition on_message :: "nat \<Rightarrow> parse_result \<Rightarrow> gateway \<Rightarrow> gateway" where
  "on_message w p s =
     (case try_body w (clock s) p of
        Inl e \<Rightarrow> s
      | Inr None \<Rightarrow> s
      | Inr (Some c) \<Rightarrow> s\<lparr>calls := calls s @ [c]\<rparr>)"

text \<open>Lines 17 to 19: a new socket, open, registered under a fresh id.\<close>

definition on_connection :: "nat \<Rightarrow> string \<Rightarrow> gateway \<Rightarrow> gateway" where
  "on_connection now rnd s =
     (let id = connection_id now rnd in
      s\<lparr>clients := AList.update id (length (sockets s)) (clients s),
        sockets := sockets s @ [\<lparr>readyState = 1, sent = []\<rparr>],
        ids := ids s @ [id]\<rparr>)"

text \<open>Lines 64 to 67: the close handler of socket \<open>w\<close> removes its id from the Map.\<close>

definition on_close :: "nat \<Rightarrow> gateway \<Rightarrow> gateway" where
  "on_close w s = s\<lparr>clients := AList.delete (ids s ! w) (clients s)\<rparr>"

subsection \<open>What the libraries do\<close>

text \<open>
  The message of the error with which axios rejects a call whose \<open>timeout\<close> option
  elapsed; index.js sets no \<open>timeoutErrorMessage\<close>.
\<close>

definition timeout_message :: "nat \<Rightarrow> string" where
  "timeout_message ms = ''timeout of '' @ show_nat ms @ ''ms exceeded''"

text \<open>The call at position \<open>k\<close> leaves the in-flight list and its closure runs.\<close>

definition finish :: "nat \<Rightarrow> outcome \<Rightarrow> gateway \<Rightarrow> gateway" where
  "finish k out s =
     (let c = calls s ! k in
      s\<lparr>calls := take k (calls s) @ drop (Suc k) (calls s),
        sockets := (sockets s)[sock c := settle (kind c) out (sockets s ! sock c)]\<rparr>)"

subsection \<open>Events\<close>

text \<open>
  What the event loop can run next.
  \<^item> \<open>Connect\<close>: a connection arrives, with the clock and random values read at line 18.
  \<^item> \<open>Message\<close>: \<open>ws\<close> emits \<open>message\<close> on a socket.
  \<^item> \<open>Settle\<close>: the call at some position of the in-flight list resolves or is rejected
    by the backend or the network, before its deadline.
  \<^item> \<open>Expire\<close>: the timeout of the call at some position fires, once the timer clock
    has reached its deadline; axios rejects the call with its timeout message.
  \<^item> \<open>Advance\<close>: time passes on the timer clock.
  \<^item> \<open>Close\<close>: a socket closes; the \<open>ws\<close> library sets \<open>readyState\<close> to 3 before it
    emits \<open>close\<close>.
  \<^item> \<open>FrameError\<close>: \<open>ws\<close> rejects an inbound frame (a text frame that is not valid
    UTF-8, for one) and emits \<open>error\<close> on the socket. index.js registers listeners for
    \<open>message\<close> and \<open>close\<close> only, so the emit throws and the process exits.
  An event naming a socket or call that does not exist changes nothing, and nothing
  happens in a process that has exited.
\<close>

datatype event =
    Connect nat string
  | Message nat parse_result
  | Settle nat outcome
  | Expire nat
  | Advance nat
  | Close nat
  | FrameError nat

fun handle :: "gateway \<Rightarrow> event \<Rightarrow> gateway" where
  "handle s (Connect now rnd) = on_connection now rnd s"
| "handle s (Message w p) = (if w < length (sockets s) then on_message w p s else s)"
| "handle s (Settle k out) =
     (if k < length (calls s) \<and> clock s < started (calls s ! k) + timeout (calls s ! k)
      then finish k out s else s)"
| "handle s (Expire k) =
     (if k < length (calls s) \<and> started (calls s ! k) + timeout (calls s ! k) \<le> clock s
      then finish k (Rejected (timeout_message (timeout (calls s ! k)))) s else s)"
| "handle s (Advance ms) = s\<lparr>clock := clock s + ms\<rparr>"
| "handle s (Close w) =
     (if w < length (sockets s) then
        on_close w (s\<lparr>sockets := (sockets s)[w := (sockets s ! w)\<lparr>readyState := 3\<rparr>]\<rparr>)
      else s)"
| "handle s (FrameError w) = (if w < length (sockets s) then s\<lparr>alive := False\<rparr> else s)"

definition step :: "gateway \<Rightarrow> event \<Rightarrow> gateway" where
  "step s e = (if alive s then handle s e else s)"

definition run :: "gateway \<Rightarrow> event list \<Rightarrow> gateway" where
  "run s evs = foldl step s evs"

subsection \<open>Predicates the properties are stated with\<close>

text \<open>
  The shape of an outbound message: an object whose \<open>type\<close> is \<open>recognition\<close> or
  \<open>chat_response\<close> and which has a \<open>payload\<close> field or an \<open>error\<close> field, and not
  both.
\<close>

definition well_formed_out :: "json \<Rightarrow> bool" where
  "well_formed_out m =
     (case m of
        JObject fs \<Rightarrow>
          (map_of fs ''type'' = Some (JString ''recognition'')
            \<or> map_of fs ''type'' = Some (JString ''chat_response''))
          \<and> ((''payload'' \<in> set (map fst fs)) \<noteq> (''error'' \<in> set (map fst fs)))
      | _ \<Rightarrow> False)"

definition all_well_formed :: "gateway \<Rightarrow> bool" where
  "all_well_formed s = (\<forall>w \<in> set (sockets s). \<forall>m \<in> set (sent w). well_formed_out m)"

text \<open>
  What holds of every call the handler starts: its socket exists, and the closure
  pair, the service and the timeout go together.
\<close>

definition call_ok :: "nat \<Rightarrow> call \<Rightarrow> bool" where
  "call_ok n c =
     (sock c < n \<and>
      (case kind c of
         Frame \<Rightarrow> url c = ''http://localhost:8001/recognize'' \<and> timeout c = 10000
       | Chat \<Rightarrow> url c = ''http://localhost:8002/query'' \<and> timeout c = 30000))"

definition calls_ok :: "gateway \<Rightarrow> bool" where
  "calls_ok s = list_all (call_ok (length (sockets s))) (calls s)"

section \<open>Basic facts\<close>

lemmas handler_defs =
  recognition_then_def recognition_catch_def chat_then_def chat_catch_def ws_send_def

lemmas eval_defs =
  run_def step_def init_def on_connection_def on_message_def on_close_def try_body_def
  finish_def printable_def connection_id_def handler_defs Let_def

lemma run_Nil: "run s [] = s"
  by (simp add: run_def)

lemma run_Cons: "run s (e # evs) = run (step s e) evs"
  by (simp add: run_def)

lemma step_dead: "\<not> alive s \<Longrightarrow> step s e = s"
  by (simp add: step_def)

lemma run_dead: "\<not> alive s \<Longrightarrow> run s evs = s"
  by (induction evs) (simp_all add: run_Nil run_Cons step_dead)

text \<open>
  A message whose \<open>type\<close> is \<open>frame\<close>, or whose \<open>type\<close> is \<open>chat\<close> and whose query
  converts to a string, always starts a call, whatever else it holds and whatever is
  already in flight; \<open>v\<close> is its \<open>image\<close> or \<open>query\<close> field as received.
\<close>

lemma message_forwarded:
  assumes "alive s" and "w < length (sockets s)"
    and "get_prop d ''type'' = Inr (Some (JString t))"
    and "t = ''frame'' \<or> t = ''chat'' \<and> (\<forall>q. get_prop d ''query'' = Inr q \<longrightarrow> printable q)"
  shows "\<exists>v. get_prop d (if t = ''frame'' then ''image'' else ''query'') = Inr v \<and>
     step s (Message w (Parsed d)) =
     s\<lparr>calls := calls s @
        [if t = ''frame''
         then \<lparr>url = ''http://localhost:8001/recognize'', body = [(''image'', v)],
               timeout = 10000, started = clock s, kind = Frame, sock = w\<rparr>
         else \<lparr>url = ''http://localhost:8002/query'', body = [(''query'', v)],
               timeout = 30000, started = clock s, kind = Chat, sock = w\<rparr>]\<rparr>"
  using assms by (cases d) (auto simp: step_def on_message_def try_body_def)

text \<open>Every call in flight in a state reached from the start was started by the handler.\<close>

lemma call_ok_mono: "call_ok n c \<Longrightarrow> n \<le> m \<Longrightarrow> call_ok m c"
  by (auto simp: call_ok_def)

lemma try_body_call_ok: "try_body w now p = Inr (Some c) \<Longrightarrow> w < n \<Longrightarrow> call_ok n c"
  by (auto simp: try_body_def call_ok_def
      split: parse_result.splits sum.splits if_splits)

lemma finish_calls_ok: "calls_ok s \<Longrightarrow> calls_ok (finish k out s)"
  by (auto simp: calls_ok_def finish_def Let_def list_all_iff dest: in_set_takeD in_set_dropD)

lemma step_calls_ok: "calls_ok s \<Longrightarrow> calls_ok (step s e)"
proof (cases e)
  case (Connect now rnd)
  assume "calls_ok s"
  then show ?thesis unfolding Connect
    by (auto simp: step_def calls_ok_def on_connection_def Let_def list_all_iff
        intro: call_ok_mono)
next
  case (Message w p)
  assume "calls_ok s"
  then show ?thesis unfolding Message
    by (auto simp: step_def calls_ok_def on_message_def list_all_iff
        split: sum.splits option.splits intro: try_body_call_ok)
next
  case (Settle k out)
  assume "calls_ok s"
  then show ?thesis unfolding Settle by (simp add: step_def finish_calls_ok)
next
  case (Expire k)
  assume "calls_ok s"
  then show ?thesis unfolding Expire by (simp add: step_def finish_calls_ok)
next
  case (Advance ms)
  assume "calls_ok s"
  then show ?thesis unfolding Advance by (simp add: step_def calls_ok_def)
next
  case (Close w)
  assume "calls_ok s"
  then show ?thesis unfolding Close by (simp add: step_def calls_ok_def on_close_def)
next
  case (FrameError w)
  assume "calls_ok s"
  then show ?thesis unfolding FrameError by (simp add: step_def calls_ok_def)
qed

lemma run_calls_ok: "calls_ok s \<Longrightarrow> calls_ok (run s evs)"
  by (induction evs arbitrary: s) (simp_all add: run_Nil run_Cons step_calls_ok)

lemma reachable_call_ok:
  "k < length (calls (run init evs)) \<Longrightarrow>
   call_ok (length (sockets (run init evs))) (calls (run init evs) ! k)"
proof -
  assume k: "k < length (calls (run init evs))"
  have "calls_ok init" by (simp add: calls_ok_def init_def)
  then have "calls_ok (run init evs)" by (rule run_calls_ok)
  with k show ?thesis by (simp add: calls_ok_def list_all_length)
qed

text \<open>
  A frame that \<open>ws\<close> rejects ends the process: there is no \<open>error\<close> listener. This is
  outside what the message handler can absorb.
\<close>

lemma unhandled_error_stops_process:
  "alive s \<Longrightarrow> w < length (sockets s) \<Longrightarrow> \<not> alive (step s (FrameError w))"
  by (simp add: step_def)

section \<open>Admission and forwarding\<close>

text \<open>
  C1 as stated fails: the handler keeps no record of pending requests and has no
  \<open>Busy\<close> reply. Two \<open>frame\<close> messages sent back to back on one connection are both
  forwarded, and nothing is written to the socket.
\<close>

theorem no_busy_reply_counterexample:
  "sent (sockets (run init [Connect 5 ''0.abc'',
      Message 0 (Parsed (JObject [(''type'', JString ''frame''), (''image'', JString ''data:AAA'')])),
      Message 0 (Parsed (JObject [(''type'', JString ''frame''), (''image'', JString ''data:BBB'')]))]) ! 0) = []
   \<and> map body (calls (run init [Connect 5 ''0.abc'',
      Message 0 (Parsed (JObject [(''type'', JString ''frame''), (''image'', JString ''data:AAA'')])),
      Message 0 (Parsed (JObject [(''type'', JString ''frame''), (''image'', JString ''data:BBB'')]))]))
     = [[(''image'', Some (JString ''data:AAA''))], [(''image'', Some (JString ''data:BBB''))]]"
  by (simp add: eval_defs)

text \<open>
  C1, amended: when a \<open>frame\<close> message, or a \<open>chat\<close> message whose query converts to
  a string, arrives on a connection that already has a call of that kind in flight
  (the call at position \<open>k\<close>), the handler writes nothing to any socket, leaves every
  call already in flight as it is, and puts one more call of the same kind for the same
  socket in flight.
\<close>

theorem second_request_forwarded:
  assumes "alive s" and "w < length (sockets s)"
    and "get_prop d ''type'' = Inr (Some (JString t))"
    and "t = ''frame'' \<or> t = ''chat'' \<and> (\<forall>q. get_prop d ''query'' = Inr q \<longrightarrow> printable q)"
    and "k < length (calls s)" and "sock (calls s ! k) = w"
    and "kind (calls s ! k) = (if t = ''frame'' then Frame else Chat)"
  shows "sockets (step s (Message w (Parsed d))) = sockets s
       \<and> length (calls (step s (Message w (Parsed d)))) = Suc (length (calls s))
       \<and> take (length (calls s)) (calls (step s (Message w (Parsed d)))) = calls s
       \<and> sock (last (calls (step s (Message w (Parsed d))))) = w
       \<and> kind (last (calls (step s (Message w (Parsed d))))) = kind (calls s ! k)"
proof -
  from message_forwarded [OF assms(1-4)] obtain v where
    "step s (Message w (Parsed d)) =
     s\<lparr>calls := calls s @
        [if t = ''frame''
         then \<lparr>url = ''http://localhost:8001/recognize'', body = [(''image'', v)],
               timeout = 10000, started = clock s, kind = Frame, sock = w\<rparr>
         else \<lparr>url = ''http://localhost:8002/query'', body = [(''query'', v)],
               timeout = 30000, started = clock s, kind = Chat, sock = w\<rparr>]\<rparr>" by blast
  with assms(7) show ?thesis by simp
qed

theorem second_request_forwarded_witness:
  "sockets (run init [Connect 5 ''0.abc'',
      Message 0 (Parsed (JObject [(''type'', JString ''chat''), (''query'', JString ''one'')])),
      Message 0 (Parsed (JObject [(''type'', JString ''chat''), (''query'', JString ''two'')]))])
   = [\<lparr>readyState = 1, sent = []\<rparr>]"
  using second_request_forwarded [of "run init [Connect 5 ''0.abc'',
      Message 0 (Parsed (JObject [(''type'', JString ''chat''), (''query'', JString ''one'')]))]" 0
      "JObject [(''type'', JString ''chat''), (''query'', JString ''two'')]" "''chat''" 0]
  by (simp add: eval_defs)

section \<open>Dispatch to a closed socket\<close>

lemma settle_not_open: "readyState w \<noteq> 1 \<Longrightarrow> settle kd out w = w"
  by (cases kd; cases out) (simp_all add: handler_defs)

lemma finish_closed:
  assumes "w < length (sockets s)" and "readyState (sockets s ! w) \<noteq> 1"
  shows "w < length (sockets (finish k out s)) \<and> readyState (sockets (finish k out s) ! w) \<noteq> 1
       \<and> sent (sockets (finish k out s) ! w) = sent (sockets s ! w)"
  using assms
  by (cases "sock (calls s ! k) = w") (simp_all add: finish_def Let_def settle_not_open)

lemma step_closed:
  assumes "w < length (sockets s)" and "readyState (sockets s ! w) \<noteq> 1"
  shows "w < length (sockets (step s e)) \<and> readyState (sockets (step s e) ! w) \<noteq> 1
       \<and> sent (sockets (step s e) ! w) = sent (sockets s ! w)"
proof (cases "alive s")
  case False
  with assms show ?thesis by (simp add: step_dead)
next
  case True
  show ?thesis
  proof (cases e)
    case (Connect now rnd)
    with assms True show ?thesis by (simp add: step_def on_connection_def Let_def nth_append)
  next
    case (Message v p)
    with assms True show ?thesis
      by (simp add: step_def on_message_def split: sum.splits option.splits)
  next
    case (Settle k out)
    with assms True finish_closed [OF assms, of k out] show ?thesis by (simp add: step_def)
  next
    case (Expire k)
    with assms True finish_closed [OF assms, of k "Rejected (timeout_message (timeout (calls s ! k)))"]
    show ?thesis by (simp add: step_def)
  next
    case (Advance ms)
    with assms True show ?thesis by (simp add: step_def)
  next
    case (Close v)
    with assms True show ?thesis by (simp add: step_def on_close_def nth_list_update)
  next
    case (FrameError v)
    with assms True show ?thesis by (simp add: step_def)
  qed
qed

lemma run_closed:
  "w < length (sockets s) \<Longrightarrow> readyState (sockets s ! w) \<noteq> 1 \<Longrightarrow>
   sent (sockets (run s evs) ! w) = sent (sockets s ! w)"
proof (induction evs arbitrary: s)
  case Nil
  show ?case by (simp add: run_Nil)
next
  case (Cons e evs)
  from step_closed [OF Cons.prems, of e] Cons.IH [of "step s e"]
  show ?case by (simp add: run_Cons)
qed

text \<open>
  C2: once a socket has closed, no later event writes to it. Whatever happens after
  the close (calls started before it settling with a response or an error or running
  into their timeout, further messages, other connections), the messages sent on that
  socket stay what they were when it closed: each handler checks \<open>readyState\<close> before
  it sends.
\<close>

theorem closed_socket_never_written:
  assumes "w < length (sockets s)"
  shows "sent (sockets (run (step s (Close w)) evs) ! w) = sent (sockets s ! w)"
proof (cases "alive s")
  case False
  then show ?thesis by (simp add: step_dead run_dead)
next
  case True
  let ?s = "step s (Close w)"
  from assms True have "w < length (sockets ?s)" "readyState (sockets ?s ! w) \<noteq> 1"
      "sent (sockets ?s ! w) = sent (sockets s ! w)"
    by (simp_all add: step_def on_close_def)
  with run_closed [of w ?s evs] show ?thesis by simp
qed

theorem closed_socket_never_written_witness:
  "sent (sockets (run init [Connect 5 ''0.abc'',
      Message 0 (Parsed (JObject [(''type'', JString ''frame''), (''image'', JString ''data:AAA'')])),
      Close 0,
      Settle 0 (Resolved (JObject [(''matches'', JArray [])]))]) ! 0) = []"
  using closed_socket_never_written [of 0 "run init [Connect 5 ''0.abc'',
      Message 0 (Parsed (JObject [(''type'', JString ''frame''), (''image'', JString ''data:AAA'')]))]"
      "[Settle 0 (Resolved (JObject [(''matches'', JArray [])]))]"]
  by (simp add: eval_defs)

section \<open>Decoding\<close>

text \<open>
  C3 as stated fails for a message that lacks a required field: a \<open>frame\<close> message
  without \<open>image\<close> is forwarded with the field left out, and the outcome of that call
  is written to the connection.
\<close>

theorem missing_field_answered_counterexample:
  "calls (run init [Connect 5 ''0.abc'', Message 0 (Parsed (JObject [(''type'', JString ''frame'')]))])
     = [\<lparr>url = ''http://localhost:8001/recognize'', body = [(''image'', None)],
         timeout = 10000, started = 0, kind = Frame, sock = 0\<rparr>]
   \<and> sent (sockets (run init [Connect 5 ''0.abc'',
        Message 0 (Parsed (JObject [(''type'', JString ''frame'')])),
        Settle 0 (Rejected ''Request failed with status code 422'')]) ! 0)
     = [JObject [(''type'', JString ''recognition''),
                 (''error'', JString ''Request failed with status code 422'')]]"
  by (simp add: eval_defs)

text \<open>
  C3, amended, for the messages that reach the message handler: whatever the message,
  the gateway closes no connection, keeps the registry, writes to no socket and the
  process keeps running (the \<open>catch\<close> block absorbs every exception of the \<open>try\<close>
  block). A message that is not valid JSON, or whose \<open>type\<close> is missing or is
  neither \<open>frame\<close> nor \<open>chat\<close>, or a \<open>chat\<close> message whose query does not convert to
  a string, leaves the whole state unchanged, so no outbound message ever results from
  it. Frames that \<open>ws\<close> rejects before the handler runs are not covered.
\<close>

theorem undecodable_message_dropped:
  "sockets (step s (Message w p)) = sockets s
   \<and> clients (step s (Message w p)) = clients s
   \<and> alive (step s (Message w p)) = alive s
   \<and> ((p = ParseThrows
        \<or> (\<exists>d. p = Parsed d \<and> get_prop d ''type'' \<noteq> Inr (Some (JString ''frame''))
                \<and> get_prop d ''type'' \<noteq> Inr (Some (JString ''chat'')))
        \<or> (\<exists>d q. p = Parsed d \<and> get_prop d ''type'' = Inr (Some (JString ''chat''))
                \<and> get_prop d ''query'' = Inr q \<and> \<not> printable q))
       \<longrightarrow> step s (Message w p) = s)"
  by (auto simp: step_def on_message_def try_body_def
      split: sum.splits option.splits parse_result.splits)

theorem undecodable_message_dropped_witness:
  "step (run init [Connect 5 ''0.abc'']) (Message 0 (Parsed (JObject [(''image'', JString ''data:AAA'')])))
   = run init [Connect 5 ''0.abc'']"
  using undecodable_message_dropped [of "run init [Connect 5 ''0.abc'']" 0
       "Parsed (JObject [(''image'', JString ''data:AAA'')])"]
  by simp

text \<open>
  C4 as stated fails: nothing checks that the image or the query is non-empty. A
  \<open>frame\<close> message with an empty image is forwarded to the recognition service.
\<close>

theorem empty_image_forwarded_counterexample:
  "calls (run init [Connect 5 ''0.abc'',
      Message 0 (Parsed (JObject [(''type'', JString ''frame''), (''image'', JString [])]))])
   = [\<lparr>url = ''http://localhost:8001/recognize'', body = [(''image'', Some (JString []))],
       timeout = 10000, started = 0, kind = Frame, sock = 0\<rparr>]"
  by (simp add: eval_defs)

text \<open>
  C4, amended: what a message on an existing socket of a running gateway adds to the
  calls in flight. A message that does not parse adds nothing. A parsed value whose
  \<open>type\<close> is \<open>frame\<close> adds one call to the recognition service whose body holds the
  \<open>image\<close> field exactly as received, empty or absent included. A parsed value whose
  \<open>type\<close> is \<open>chat\<close> adds one call to the RAG service whose body holds the \<open>query\<close>
  field exactly as received, unless the query does not convert to a string, and then
  it adds nothing. Every other parsed value adds nothing.
\<close>

theorem forwarded_iff_type_known:
  assumes "alive s" and "w < length (sockets s)"
  shows "calls (step s (Message w ParseThrows)) = calls s
       \<and> (get_prop d ''type'' = Inr (Some (JString ''frame'')) \<longrightarrow>
            (\<exists>img. get_prop d ''image'' = Inr img
               \<and> calls (step s (Message w (Parsed d))) = calls s @
                   [\<lparr>url = ''http://localhost:8001/recognize'', body = [(''image'', img)],
                     timeout = 10000, started = clock s, kind = Frame, sock = w\<rparr>]))
       \<and> (get_prop d ''type'' = Inr (Some (JString ''chat'')) \<longrightarrow>
            (\<exists>qry. get_prop d ''query'' = Inr qry
               \<and> calls (step s (Message w (Parsed d))) =
                   (if printable qry
                    then calls s @
                      [\<lparr>url = ''http://localhost:8002/query'', body = [(''query'', qry)],
                        timeout = 30000, started = clock s, kind = Chat, sock = w\<rparr>]
                    else calls s)))
       \<and> (get_prop d ''type'' \<noteq> Inr (Some (JString ''frame''))
            \<and> get_prop d ''type'' \<noteq> Inr (Some (JString ''chat'')) \<longrightarrow>
            calls (step s (Message w (Parsed d))) = calls s)"
  using assms by (cases d) (auto simp: step_def on_message_def try_body_def)

theorem forwarded_iff_type_known_witness:
  "calls (step (run init [Connect 5 ''0.abc''])
       (Message 0 (Parsed (JObject [(''type'', JString ''chat''), (''query'', JString [])]))))
   = [\<lparr>url = ''http://localhost:8002/query'', body = [(''query'', Some (JString []))],
       timeout = 30000, started = 0, kind = Chat, sock = 0\<rparr>]"
  using forwarded_iff_type_known [of "run init [Connect 5 ''0.abc'']" 0
       "JObject [(''type'', JString ''chat''), (''query'', JString [])]"]
  by (simp add: eval_defs)

text \<open>
  The chat message the handler drops although its \<open>type\<close> is known: converting the
  query for the log line throws, the \<open>catch\<close> block logs, and no call is started.
\<close>

lemma unprintable_query_dropped:
  "step (run init [Connect 5 ''0.abc''])
     (Message 0 (Parsed (JObject [(''type'', JString ''chat''),
                                  (''query'', JObject [(''toString'', JNumber 1)])])))
   = run init [Connect 5 ''0.abc'']"
  by (simp add: eval_defs)

section \<open>Results\<close>



text \<open>
  C6 as stated fails in its last part: the \<open>catch\<close> closures send \<open>err.message\<close> as it
  is, and the message with which axios rejects a call whose timeout elapsed is not
  \<open>Timeout\<close>. A chat call that gets no answer for 30000 milliseconds:
\<close>

theorem timeout_text_counterexample:
  "sent (sockets (run init [Connect 5 ''0.abc'',
      Message 0 (Parsed (JObject [(''type'', JString ''chat''), (''query'', JString ''Who registered last?'')])),
      Advance 30000, Expire 0]) ! 0)
   = [JObject [(''type'', JString ''chat_response''), (''error'', JString ''timeout of 30000ms exceeded'')]]
   \<and> sent (sockets (run init [Connect 5 ''0.abc'',
      Message 0 (Parsed (JObject [(''type'', JString ''chat''), (''query'', JString ''Who registered last?'')])),
      Advance 30000, Expire 0]) ! 0)
   \<noteq> [JObject [(''type'', JString ''chat_response''), (''error'', JString ''Timeout'')]]"
  by (simp add: eval_defs timeout_message_def show_nat.simps digit_char_def)

text \<open>
  C6, amended only in the text of the error: in every state the gateway can reach,
  every call in flight carries a deadline of 10000 milliseconds (recognition) or 30000
  milliseconds (chat) from its start. Before the deadline the timeout cannot fire. Once
  the deadline has elapsed with the call still in flight, a backend response is no
  longer delivered, and the timeout takes the call out of the in-flight list and
  writes, to the socket of the request if it is open, the failure message of the
  matching \<open>type\<close> whose \<open>error\<close> field is \<open>timeout of 10000ms exceeded\<close> or
  \<open>timeout of 30000ms exceeded\<close>.
\<close>

theorem deadline_failure_delivered:
  assumes "s = run init evs" and "alive s" and "k < length (calls s)" and "c = calls s ! k"
    and "readyState (sockets s ! sock c) = 1"
  shows "timeout c = (case kind c of Frame \<Rightarrow> 10000 | Chat \<Rightarrow> 30000)
       \<and> (clock s < started c + timeout c \<longrightarrow> step s (Expire k) = s)
       \<and> (started c + timeout c \<le> clock s \<longrightarrow>
            step s (Settle k out) = s
            \<and> calls (step s (Expire k)) = take k (calls s) @ drop (Suc k) (calls s)
            \<and> sockets (step s (Expire k)) =
                (sockets s)[sock c := (sockets s ! sock c)
                   \<lparr>sent := sent (sockets s ! sock c) @
                      [case kind c of
                         Frame \<Rightarrow> JObject [(''type'', JString ''recognition''),
                                            (''error'', JString ''timeout of 10000ms exceeded'')]
                       | Chat \<Rightarrow> JObject [(''type'', JString ''chat_response''),
                                           (''error'', JString ''timeout of 30000ms exceeded'')]]\<rparr>])"
proof -
  from assms(1,3,4) have ok: "call_ok (length (sockets s)) c"
    using reachable_call_ok [of k evs] by simp
  have m: "timeout_message 10000 = ''timeout of 10000ms exceeded''"
    "timeout_message 30000 = ''timeout of 30000ms exceeded''"
    by (simp_all add: timeout_message_def show_nat.simps digit_char_def)
  from ok have t: "timeout c = (case kind c of Frame \<Rightarrow> 10000 | Chat \<Rightarrow> 30000)"
    by (cases "kind c") (simp_all add: call_ok_def)
  moreover from assms(2-4) have "clock s < started c + timeout c \<longrightarrow> step s (Expire k) = s"
    by (simp add: step_def)
  moreover have "step s (Settle k out) = s" if "started c + timeout c \<le> clock s"
    using that assms(2-4) by (simp add: step_def)
  moreover have "calls (step s (Expire k)) = take k (calls s) @ drop (Suc k) (calls s)"
    if "started c + timeout c \<le> clock s"
    using that assms(2-4) by (simp add: step_def finish_def Let_def)
  moreover have "sockets (step s (Expire k)) =
                (sockets s)[sock c := (sockets s ! sock c)
                   \<lparr>sent := sent (sockets s ! sock c) @
                      [case kind c of
                         Frame \<Rightarrow> JObject [(''type'', JString ''recognition''),
                                            (''error'', JString ''timeout of 10000ms exceeded'')]
                       | Chat \<Rightarrow> JObject [(''type'', JString ''chat_response''),
                                           (''error'', JString ''timeout of 30000ms exceeded'')]]\<rparr>]"
    if "started c + timeout c \<le> clock s"
    using that assms(2-5) t m
    by (cases "kind c") (simp_all add: step_def finish_def Let_def handler_defs)
  ultimately show ?thesis by blast
qed

theorem deadline_failure_delivered_witness:
  "sockets (step (run init [Connect 5 ''0.abc'',
      Message 0 (Parsed (JObject [(''type'', JString ''frame''), (''image'', JString ''data:AAA'')])),
      Advance 10000]) (Expire 0))
   = [\<lparr>readyState = 1,
       sent = [JObject [(''type'', JString ''recognition''),
                        (''error'', JString ''timeout of 10000ms exceeded'')]]\<rparr>]"
proof -
  let ?evs = "[Connect 5 ''0.abc'',
      Message 0 (Parsed (JObject [(''type'', JString ''frame''), (''image'', JString ''data:AAA'')])),
      Advance 10000]"
  have s: "run init ?evs =
    \<lparr>clients = [(connection_id 5 ''0.abc'', 0)],
     sockets = [\<lparr>readyState = 1, sent = []\<rparr>],
     ids = [connection_id 5 ''0.abc''],
     calls = [\<lparr>url = ''http://localhost:8001/recognize'', body = [(''image'', Some (JString ''data:AAA''))],
               timeout = 10000, started = 0, kind = Frame, sock = 0\<rparr>],
     clock = 10000, alive = True\<rparr>"
    by (simp add: eval_defs)
  from deadline_failure_delivered [where s = "run init ?evs" and evs = ?evs and k = 0
      and c = "calls (run init ?evs) ! 0", OF refl _ _ refl]
  show ?thesis unfolding s by simp
qed

section \<open>Order of delivery\<close>

text \<open>
  C7 as stated fails: the handler does not sequence calls. Two \<open>frame\<close> requests of
  one connection are in flight together, and when the call of the second settles first
  its result is delivered first.
\<close>

theorem out_of_order_delivery_counterexample:
  "map body (calls (run init [Connect 5 ''0.abc'',
      Message 0 (Parsed (JObject [(''type'', JString ''frame''), (''image'', JString ''data:AAA'')])),
      Message 0 (Parsed (JObject [(''type'', JString ''frame''), (''image'', JString ''data:BBB'')]))]))
     = [[(''image'', Some (JString ''data:AAA''))], [(''image'', Some (JString ''data:BBB''))]]
   \<and> sent (sockets (run init [Connect 5 ''0.abc'',
      Message 0 (Parsed (JObject [(''type'', JString ''frame''), (''image'', JString ''data:AAA'')])),
      Message 0 (Parsed (JObject [(''type'', JString ''frame''), (''image'', JString ''data:BBB'')])),
      Settle 1 (Resolved (JString ''result for BBB'')),
      Settle 0 (Resolved (JString ''result for AAA''))]) ! 0)
     = [JObject [(''type'', JString ''recognition''), (''payload'', JString ''result for BBB'')],
        JObject [(''type'', JString ''recognition''), (''payload'', JString ''result for AAA'')]]"
  by (simp add: eval_defs)

text \<open>
  C7, amended: requests of one kind are not limited to one in flight per connection,
  and results are delivered in the order in which the backend calls settle. Two
  requests of one kind submitted on an open connection (\<open>frame\<close> messages, or \<open>chat\<close>
  messages whose queries convert to strings) are both in flight, and if the call of the
  second settles before the call of the first, the result of the second is written
  before the result of the first.
\<close>

theorem delivery_in_settlement_order:
  assumes "alive s" and "w < length (sockets s)" and "readyState (sockets s ! w) = 1"
    and "get_prop d1 ''type'' = Inr (Some (JString t))"
    and "get_prop d2 ''type'' = Inr (Some (JString t))"
    and "t = ''frame'' \<or> t = ''chat'' \<and> (\<forall>q. get_prop d1 ''query'' = Inr q \<longrightarrow> printable q)"
    and "t = ''frame'' \<or> t = ''chat'' \<and> (\<forall>q. get_prop d2 ''query'' = Inr q \<longrightarrow> printable q)"
  shows "length (calls (run s [Message w (Parsed d1), Message w (Parsed d2)])) = length (calls s) + 2
       \<and> sent (sockets (run s [Message w (Parsed d1), Message w (Parsed d2),
                               Settle (length (calls s) + 1) (Resolved r2),
                               Settle (length (calls s)) (Resolved r1)]) ! w)
         = sent (sockets s ! w) @
           [JObject [(''type'', JString (if t = ''frame'' then ''recognition'' else ''chat_response'')),
                     (''payload'', r2)],
            JObject [(''type'', JString (if t = ''frame'' then ''recognition'' else ''chat_response'')),
                     (''payload'', r1)]]"
proof -
  from message_forwarded [OF assms(1,2,4,6)] obtain v1 where
    s1: "step s (Message w (Parsed d1)) =
     s\<lparr>calls := calls s @
        [if t = ''frame''
         then \<lparr>url = ''http://localhost:8001/recognize'', body = [(''image'', v1)],
               timeout = 10000, started = clock s, kind = Frame, sock = w\<rparr>
         else \<lparr>url = ''http://localhost:8002/query'', body = [(''query'', v1)],
               timeout = 30000, started = clock s, kind = Chat, sock = w\<rparr>]\<rparr>" (is "_ = ?s1") by blast
  from assms(1,2) have "alive ?s1" "w < length (sockets ?s1)" by simp_all
  from message_forwarded [OF this assms(5,7)] obtain v2 where
    s2: "step ?s1 (Message w (Parsed d2)) =
     ?s1\<lparr>calls := calls ?s1 @
        [if t = ''frame''
         then \<lparr>url = ''http://localhost:8001/recognize'', body = [(''image'', v2)],
               timeout = 10000, started = clock ?s1, kind = Frame, sock = w\<rparr>
         else \<lparr>url = ''http://localhost:8002/query'', body = [(''query'', v2)],
               timeout = 30000, started = clock ?s1, kind = Chat, sock = w\<rparr>]\<rparr>" by blast
  have r: "run s (Message w (Parsed d1) # Message w (Parsed d2) # evs)
         = run (step ?s1 (Message w (Parsed d2))) evs" for evs
    using s1 by (simp add: run_def)
  show ?thesis using assms(1,2,3)
    unfolding r s2 by (auto simp: run_def step_def finish_def handler_defs Let_def nth_append)
qed

theorem delivery_in_settlement_order_witness:
  "sent (sockets (run init [Connect 5 ''0.abc'',
      Message 0 (Parsed (JObject [(''type'', JString ''chat''), (''query'', JString ''one'')])),
      Message 0 (Parsed (JObject [(''type'', JString ''chat''), (''query'', JString ''two'')])),
      Settle 1 (Resolved (JString ''answer two'')),
      Settle 0 (Resolved (JString ''answer one''))]) ! 0)
   = [JObject [(''type'', JString ''chat_response''), (''payload'', JString ''answer two'')],
      JObject [(''type'', JString ''chat_response''), (''payload'', JString ''answer one'')]]"
  using delivery_in_settlement_order [of "run init [Connect 5 ''0.abc'']" 0
      "JObject [(''type'', JString ''chat''), (''query'', JString ''one'')]" "''chat''"
      "JObject [(''type'', JString ''chat''), (''query'', JString ''two'')]"
      "JString ''answer two''" "JString ''answer one''"]
  by (simp add: eval_defs)

section \<open>Connection ids\<close>

lemma digit_char_inj: "a < 10 \<Longrightarrow> b < 10 \<Longrightarrow> digit_char a = digit_char b \<Longrightarrow> a = b"
  by (simp add: digit_char_def nth_eq_iff_index_eq)

lemma show_nat_nonempty: "show_nat n \<noteq> []"
  by (subst show_nat.simps) simp

lemma show_nat_inj: "show_nat a = show_nat b \<Longrightarrow> a = b"
proof (induction a arbitrary: b rule: show_nat.induct)
  case (1 a)
  show ?case
  proof (cases "a < 10")
    case True
    then have la: "length (show_nat a) = 1" by (subst show_nat.simps) simp
    have "b < 10"
    proof (rule ccontr)
      assume "\<not> b < 10"
      then have "show_nat b = show_nat (b div 10) @ [digit_char (b mod 10)]"
        by (subst show_nat.simps) simp
      with show_nat_nonempty [of "b div 10"] have "length (show_nat b) \<ge> 2"
        by (cases "show_nat (b div 10)") simp_all
      with la "1.prems" show False by simp
    qed
    with True "1.prems" show ?thesis
      by (simp add: show_nat.simps [of a] show_nat.simps [of b] digit_char_inj)
  next
    case False
    then have ea: "show_nat a = show_nat (a div 10) @ [digit_char (a mod 10)]"
      by (subst show_nat.simps) simp
    have nb: "\<not> b < 10"
    proof
      assume "b < 10"
      then have "length (show_nat b) = 1" by (subst show_nat.simps) simp
      moreover from ea show_nat_nonempty [of "a div 10"] have "length (show_nat a) \<ge> 2"
        by (cases "show_nat (a div 10)") simp_all
      ultimately show False using "1.prems" by simp
    qed
    then have eb: "show_nat b = show_nat (b div 10) @ [digit_char (b mod 10)]"
      by (subst show_nat.simps) simp
    from "1.prems" ea eb have h: "show_nat (a div 10) = show_nat (b div 10)"
      "digit_char (a mod 10) = digit_char (b mod 10)" by simp_all
    from "1.IH" [OF False h(1)] have "a div 10 = b div 10" .
    moreover from h(2) have "a mod 10 = b mod 10" by (simp add: digit_char_inj)
    ultimately show ?thesis by (metis div_mult_mod_eq)
  qed
qed

text \<open>The rendering of a clock value of today: thirteen digits followed by the salt.\<close>

lemma connection_id_example:
  "connection_id 1700000000000 ''0.k3j9x2'' = ''1700000000000k3j9x2''"
  by (simp add: connection_id_def show_nat.simps digit_char_def)

text \<open>
  Clock values with different numbers of digits can give one id with different
  salts, since the salt may begin with digits: this is why the amended C8 below
  compares clock values of equal length.
\<close>

lemma connection_id_digits_shift: "connection_id 1 ''0.23'' = connection_id 12 ''0.3''"
  by (simp add: connection_id_def show_nat.simps digit_char_def)

text \<open>
  C8 as stated fails: the id is a function of the clock and the random value alone,
  with no counter. Two connections accepted in the same millisecond with the same
  random value get the same id, and the second replaces the first in the \<open>clients\<close> Map.
\<close>

theorem connection_id_collision_counterexample:
  "ids (run init [Connect 1700000000000 ''0.k3j9x2'', Connect 1700000000000 ''0.k3j9x2'']) ! 0
   = ids (run init [Connect 1700000000000 ''0.k3j9x2'', Connect 1700000000000 ''0.k3j9x2'']) ! 1
   \<and> map snd (clients (run init [Connect 1700000000000 ''0.k3j9x2'',
                                  Connect 1700000000000 ''0.k3j9x2''])) = [1]"
  by (simp add: eval_defs)

text \<open>
  C8, amended: the id is the decimal clock value followed by the random string without
  its first two characters. For two registrations whose clock values have the same
  number of digits (as all millisecond clock values between 2001 and 2286 do), the ids
  are equal exactly when the clock values are equal and the salts are equal; so the ids
  are distinct whenever the clock or the salt differs.
\<close>

theorem connection_id_eq_iff:
  assumes "length (show_nat t1) = length (show_nat t2)"
  shows "(connection_id t1 r1 = connection_id t2 r2) = (t1 = t2 \<and> drop 2 r1 = drop 2 r2)"
  using assms show_nat_inj [of t1 t2] by (auto simp: connection_id_def)

theorem connection_id_eq_iff_witness:
  "connection_id 1700000000000 ''0.k3j9x2'' \<noteq> connection_id 1700000000001 ''0.k3j9x2''"
  using connection_id_eq_iff [of 1700000000000 1700000000001 "''0.k3j9x2''" "''0.k3j9x2''"]
  by (simp add: show_nat.simps)

section \<open>The registry and delivery\<close>

lemma handle_clients_irrelevant:
  "\<exists>r'. handle (s\<lparr>clients := r\<rparr>) e = (handle s e)\<lparr>clients := r'\<rparr>"
proof (cases e)
  case (Connect now rnd)
  have "handle (s\<lparr>clients := r\<rparr>) (Connect now rnd)
      = (handle s (Connect now rnd))\<lparr>clients := AList.update (connection_id now rnd) (length (sockets s)) r\<rparr>"
    by (simp add: on_connection_def Let_def)
  then show ?thesis unfolding Connect by blast
next
  case (Message v p)
  have "handle (s\<lparr>clients := r\<rparr>) (Message v p) = (handle s (Message v p))\<lparr>clients := r\<rparr>"
    by (simp add: on_message_def split: sum.splits option.splits)
  then show ?thesis unfolding Message by blast
next
  case (Settle k out)
  have "handle (s\<lparr>clients := r\<rparr>) (Settle k out) = (handle s (Settle k out))\<lparr>clients := r\<rparr>"
    by (simp add: finish_def Let_def)
  then show ?thesis unfolding Settle by blast
next
  case (Expire k)
  have "handle (s\<lparr>clients := r\<rparr>) (Expire k) = (handle s (Expire k))\<lparr>clients := r\<rparr>"
    by (simp add: finish_def Let_def)
  then show ?thesis unfolding Expire by blast
next
  case (Advance ms)
  have "handle (s\<lparr>clients := r\<rparr>) (Advance ms) = (handle s (Advance ms))\<lparr>clients := r\<rparr>"
    by simp
  then show ?thesis unfolding Advance by blast
next
  case (Close v)
  have "handle (s\<lparr>clients := r\<rparr>) (Close v)
      = (handle s (Close v))\<lparr>clients := (if v < length (sockets s) then AList.delete (ids s ! v) r else r)\<rparr>"
    by (simp add: on_close_def)
  then show ?thesis unfolding Close by blast
next
  case (FrameError v)
  have "handle (s\<lparr>clients := r\<rparr>) (FrameError v) = (handle s (FrameError v))\<lparr>clients := r\<rparr>"
    by simp
  then show ?thesis unfolding FrameError by blast
qed

lemma step_clients_irrelevant:
  "\<exists>r'. step (s\<lparr>clients := r\<rparr>) e = (step s e)\<lparr>clients := r'\<rparr>"
proof (cases "alive s")
  case True
  with handle_clients_irrelevant [where s = s and r = r and e = e] show ?thesis by (simp add: step_def)
next
  case False
  then have "step (s\<lparr>clients := r\<rparr>) e = (step s e)\<lparr>clients := r\<rparr>" by (simp add: step_def)
  then show ?thesis by blast
qed

lemma run_clients_irrelevant:
  "\<exists>r'. run (s\<lparr>clients := r\<rparr>) evs = (run s evs)\<lparr>clients := r'\<rparr>"
proof (induction evs arbitrary: s r)
  case Nil
  show ?case unfolding run_Nil by (rule exI [of _ r]) simp
next
  case (Cons e evs)
  obtain r1 where "step (s\<lparr>clients := r\<rparr>) e = (step s e)\<lparr>clients := r1\<rparr>"
    using step_clients_irrelevant by blast
  with Cons.IH [where s = "step s e" and r = r1] show ?case by (simp add: run_Cons)
qed

text \<open>
  C9: delivery never reads the \<open>clients\<close> Map. Replace the Map of a state by any other
  and run the same events: every socket ends with the same \<open>readyState\<close> and the same
  messages sent, the same calls are in flight, the closures hold the same ids, and the
  timer clock and the running flag are the same.
\<close>

theorem registry_irrelevant:
  "sockets (run (s\<lparr>clients := r\<rparr>) evs) = sockets (run s evs)
   \<and> calls (run (s\<lparr>clients := r\<rparr>) evs) = calls (run s evs)
   \<and> ids (run (s\<lparr>clients := r\<rparr>) evs) = ids (run s evs)
   \<and> clock (run (s\<lparr>clients := r\<rparr>) evs) = clock (run s evs)
   \<and> alive (run (s\<lparr>clients := r\<rparr>) evs) = alive (run s evs)"
proof -
  obtain r' where "run (s\<lparr>clients := r\<rparr>) evs = (run s evs)\<lparr>clients := r'\<rparr>"
    using run_clients_irrelevant by blast
  then show ?thesis by simp
qed

section \<open>Shape of every outbound message\<close>

lemma settle_well_formed:
  "\<forall>m \<in> set (sent w). well_formed_out m \<Longrightarrow> m' \<in> set (sent (settle kd out w)) \<Longrightarrow>
   well_formed_out m'"
  by (cases kd; cases out) (auto simp: handler_defs well_formed_out_def split: if_splits)

lemma finish_well_formed: "all_well_formed s \<Longrightarrow> all_well_formed (finish k out s)"
proof -
  assume a: "all_well_formed s"
  let ?c = "calls s ! k"
  have "\<forall>m \<in> set (sent w'). well_formed_out m"
    if "w' \<in> set ((sockets s)[sock ?c := settle (kind ?c) out (sockets s ! sock ?c)])" for w'
  proof -
    from that have "w' = settle (kind ?c) out (sockets s ! sock ?c) \<and> sock ?c < length (sockets s)
        \<or> w' \<in> set (sockets s)"
      by (metis in_set_conv_nth length_list_update nth_list_update_eq nth_list_update_neq)
    then show ?thesis
    proof
      assume h: "w' = settle (kind ?c) out (sockets s ! sock ?c) \<and> sock ?c < length (sockets s)"
      then have "sockets s ! sock ?c \<in> set (sockets s)" by simp
      with a have "\<forall>m \<in> set (sent (sockets s ! sock ?c)). well_formed_out m"
        unfolding all_well_formed_def by blast
      with h show ?thesis using settle_well_formed by blast
    next
      assume "w' \<in> set (sockets s)"
      with a show ?thesis by (simp add: all_well_formed_def)
    qed
  qed
  then show ?thesis by (simp add: all_well_formed_def finish_def Let_def)
qed

lemma handle_well_formed: "all_well_formed s \<Longrightarrow> all_well_formed (handle s e)"
proof (cases e)
  case (Connect now rnd)
  assume "all_well_formed s"
  with Connect show ?thesis by (auto simp: all_well_formed_def on_connection_def Let_def)
next
  case (Message v p)
  assume "all_well_formed s"
  with Message show ?thesis
    by (auto simp: all_well_formed_def on_message_def split: sum.splits option.splits)
next
  case (Settle k out)
  assume "all_well_formed s"
  with Settle show ?thesis by (simp add: finish_well_formed)
next
  case (Expire k)
  assume "all_well_formed s"
  with Expire show ?thesis by (simp add: finish_well_formed)
next
  case (Advance ms)
  assume "all_well_formed s"
  with Advance show ?thesis by (simp add: all_well_formed_def)
next
  case (Close v)
  assume a: "all_well_formed s"
  have "\<forall>m \<in> set (sent w'). well_formed_out m"
    if "w' \<in> set ((sockets s)[v := (sockets s ! v)\<lparr>readyState := 3\<rparr>])" for w'
  proof -
    from that have "w' = (sockets s ! v)\<lparr>readyState := 3\<rparr> \<and> v < length (sockets s)
        \<or> w' \<in> set (sockets s)"
      by (metis in_set_conv_nth length_list_update nth_list_update_eq nth_list_update_neq)
    with a show ?thesis by (auto simp: all_well_formed_def dest: nth_mem)
  qed
  with a Close show ?thesis by (simp add: all_well_formed_def on_close_def)
next
  case (FrameError v)
  assume "all_well_formed s"
  with FrameError show ?thesis by (simp add: all_well_formed_def)
qed

lemma step_well_formed: "all_well_formed s \<Longrightarrow> all_well_formed (step s e)"
  by (simp add: step_def handle_well_formed)

lemma run_well_formed: "all_well_formed s \<Longrightarrow> all_well_formed (run s evs)"
  by (induction evs arbitrary: s) (simp_all add: run_Nil run_Cons step_well_formed)

text \<open>
  C10: whatever events the gateway processes from its start, every message written to
  every socket is an object whose \<open>type\<close> is \<open>recognition\<close> or \<open>chat_response\<close> and that
  has exactly one of the fields \<open>payload\<close> and \<open>error\<close>.
\<close>

theorem outbound_well_formed:
  "\<forall>w \<in> set (sockets (run init evs)). \<forall>m \<in> set (sent w). well_formed_out m"
proof -
  have "all_well_formed init" by (simp add: all_well_formed_def init_def)
  then have "all_well_formed (run init evs)" by (rule run_well_formed)
  then show ?thesis by (simp add: all_well_formed_def)
qed

theorem outbound_well_formed_witness:
  "well_formed_out (JObject [(''type'', JString ''chat_response''), (''error'', JString ''Network Error'')])"
  using outbound_well_formed [of "[Connect 5 ''0.abc'',
      Message 0 (Parsed (JObject [(''type'', JString ''chat''), (''query'', JString ''hi'')])),
      Settle 0 (Rejected ''Network Error'')]"]
  by (simp add: eval_defs)

end
